theory Spec2Isabelle
  imports Main
begin

section \<open>The stream signalling service of \<^verbatim>\<open>src/services/webrtc.ts\<close>\<close>

text \<open>
  The class \<^verbatim>\<open>WebRTCService\<close> keeps a JavaScript \<^verbatim>\<open>Map\<close> from stream
  identifiers to rooms and reacts to the events of socket.io connections. Every handler
  is embedded as a function from the service state to the new state and the list of
  emissions it makes, in the order of the \<^verbatim>\<open>emit\<close> calls.
\<close>

subsection \<open>Rooms and summaries\<close>

text \<open>\<^verbatim>\<open>interface StreamRoom\<close>; an optional field is \<open>None\<close> when undefined.\<close>

record StreamRoom =
  broadcaster :: string
  viewers :: "string list"
  streamId :: string
  title :: "string option"
  category :: "string option"

text \<open>
  The object literal built by \<^verbatim>\<open>getActiveStreamsInfo\<close>, with the fields
  \<^verbatim>\<open>id, title, viewers, category, streamer, isLive\<close>.
\<close>

record StreamInfo =
  info_id :: string
  info_title :: string
  info_viewers :: nat
  info_category :: string
  info_streamer :: string
  info_isLive :: bool

text \<open>
  \<^verbatim>\<open>a || b\<close> on an optional string: \<^verbatim>\<open>undefined\<close> and the empty string are
  the falsy values of that type.
\<close>

definition js_or :: "string option \<Rightarrow> string \<Rightarrow> string" where
  "js_or a b = (case a of None \<Rightarrow> b | Some x \<Rightarrow> if x = [] then b else x)"

subsection \<open>The JavaScript \<^verbatim>\<open>Map\<close>\<close>

text \<open>
  A \<^verbatim>\<open>Map\<close> iterates in insertion order, so it is an association list.
  \<^verbatim>\<open>set\<close> on a present key replaces the value where it stands, on a new key it
  appends; \<^verbatim>\<open>delete\<close> removes the entry of the key.
\<close>

fun Map_get :: "('k \<times> 'v) list \<Rightarrow> 'k \<Rightarrow> 'v option" where
  "Map_get [] k = None"
| "Map_get ((k', v) # m) k = (if k' = k then Some v else Map_get m k)"

fun Map_set :: "('k \<times> 'v) list \<Rightarrow> 'k \<Rightarrow> 'v \<Rightarrow> ('k \<times> 'v) list" where
  "Map_set [] k v = [(k, v)]"
| "Map_set ((k', v') # m) k v =
     (if k' = k then (k, v) # m else (k', v') # Map_set m k v)"

definition Map_delete :: "('k \<times> 'v) list \<Rightarrow> 'k \<Rightarrow> ('k \<times> 'v) list" where
  "Map_delete m k = filter (\<lambda>e. fst e \<noteq> k) m"

definition Map_keys :: "('k \<times> 'v) list \<Rightarrow> 'k list" where
  "Map_keys m = map fst m"

subsection \<open>Arrays\<close>

text \<open>
  \<^verbatim>\<open>Array.prototype.findIndex\<close> returns the index of the first element that
  satisfies the predicate and \<open>-1\<close> when there is none; \<^verbatim>\<open>splice(i, n)\<close> removes
  \<open>n\<close> elements from index \<open>i\<close> on.
\<close>

fun findIndex :: "('a \<Rightarrow> bool) \<Rightarrow> 'a list \<Rightarrow> int" where
  "findIndex P [] = - 1"
| "findIndex P (x # xs) =
     (if P x then 0
      else (let i = findIndex P xs in if i = - 1 then - 1 else i + 1))"

definition splice_js :: "'a list \<Rightarrow> int \<Rightarrow> nat \<Rightarrow> 'a list" where
  "splice_js xs i n = take (nat i) xs @ drop (nat i + n) xs"

subsection \<open>Messages and the transport\<close>

type_synonym payload = string

text \<open>The events the server emits, each with the payload the source gives it.\<close>

datatype message =
    StreamCreationFailed string
  | StreamCreated string
  | StreamUpdate "StreamInfo list"
  | ViewerJoined string string
  | StreamStarted string string
  | ErrorMsg string
  | OfferMsg payload string
  | AnswerMsg payload string
  | IceCandidateMsg payload string
  | StreamEnded string
  | Callback "StreamInfo list"

text \<open>One \<^verbatim>\<open>emit\<close> call: the connections it reaches and what they receive.\<close>

type_synonym emission = "string set \<times> message"

text \<open>
  Modelled from the spec: the socket.io \<^verbatim>\<open>Server\<close> and its sockets are a library,
  not part of \<^verbatim>\<open>src/\<close>. Following the Transport Adapter of the specification, the
  server knows the open connections and the members of every named group; a message is
  sent to one connection, to the members of a group except the sender, to the members of
  a group, or to every open connection. When a channel closes, the connection has left
  the server and all its groups before the \<^verbatim>\<open>disconnect\<close> handler runs.
\<close>

record Server =
  sockets :: "string set"
  members :: "string \<Rightarrow> string set"

definition socket_emit :: "string \<Rightarrow> message \<Rightarrow> emission" where
  "socket_emit sock m = ({sock}, m)"

definition socket_to_emit :: "Server \<Rightarrow> string \<Rightarrow> string \<Rightarrow> message \<Rightarrow> emission" where
  "socket_to_emit srv sock g m = (members srv g - {sock}, m)"

definition io_to_emit :: "Server \<Rightarrow> string \<Rightarrow> message \<Rightarrow> emission" where
  "io_to_emit srv g m = (members srv g, m)"

definition io_emit :: "Server \<Rightarrow> message \<Rightarrow> emission" where
  "io_emit srv m = (sockets srv, m)"

definition socket_join :: "string \<Rightarrow> string \<Rightarrow> Server \<Rightarrow> Server" where
  "socket_join sock g srv = srv\<lparr>members := (members srv)(g := insert sock (members srv g))\<rparr>"

definition connection :: "string \<Rightarrow> Server \<Rightarrow> Server" where
  "connection sock srv = srv\<lparr>sockets := insert sock (sockets srv)\<rparr>"

definition close :: "string \<Rightarrow> Server \<Rightarrow> Server" where
  "close sock srv =
     srv\<lparr>sockets := sockets srv - {sock}, members := (\<lambda>g. members srv g - {sock})\<rparr>"

text \<open>The messages a connection receives from a list of emissions, in order.\<close>

definition delivered_to :: "string \<Rightarrow> emission list \<Rightarrow> message list" where
  "delivered_to c out = map snd (filter (\<lambda>e. c \<in> fst e) out)"

subsection \<open>The service\<close>

record WebRTCService =
  io :: Server
  rooms :: "(string \<times> StreamRoom) list"

text \<open>The constructor: no connection yet, \<^verbatim>\<open>this.rooms = new Map()\<close>.\<close>

definition init :: WebRTCService where
  "init = \<lparr>io = \<lparr>sockets = {}, members = (\<lambda>g. {})\<rparr>, rooms = []\<rparr>"

definition getActiveStreamsInfo :: "WebRTCService \<Rightarrow> StreamInfo list" where
  "getActiveStreamsInfo s =
     map (\<lambda>(sid, room).
            \<lparr>info_id = sid,
             info_title = js_or (title room) ''Untitled Stream'',
             info_viewers = length (viewers room),
             info_category = js_or (category room) ''Uncategorized'',
             info_streamer = broadcaster room,
             info_isLive = True\<rparr>)
         (rooms s)"

text \<open>
  The outcome of \<^verbatim>\<open>prisma.user.findUnique\<close> for the \<^verbatim>\<open>userId\<close> of a
  \<^verbatim>\<open>create-stream\<close> request: the lookup throws, finds no user, or finds a user
  with its \<^verbatim>\<open>isCreator\<close> flag. It is an input of the handler.
\<close>

datatype lookup = Throws | Null | User bool

definition create_stream ::
  "string \<Rightarrow> string \<Rightarrow> string \<Rightarrow> string option \<Rightarrow> string option \<Rightarrow> lookup
     \<Rightarrow> WebRTCService \<Rightarrow> WebRTCService \<times> emission list" where
  "create_stream sock sid uid ttl cat found s =
     (case found of
        Throws \<Rightarrow>
          (s, [socket_emit sock (StreamCreationFailed ''Failed to verify creator status.'')])
      | Null \<Rightarrow>
          (s, [socket_emit sock
                 (StreamCreationFailed ''Only approved creators can start a stream.'')])
      | User isCreator \<Rightarrow>
          if \<not> isCreator then
            (s, [socket_emit sock
                   (StreamCreationFailed ''Only approved creators can start a stream.'')])
          else
            (let s1 = s\<lparr>rooms := Map_set (rooms s) sid
                          \<lparr>broadcaster = uid, viewers = [], streamId = sid,
                           title = ttl, category = cat\<rparr>\<rparr>;
                 s2 = s1\<lparr>io := socket_join sock sid (io s1)\<rparr>
             in (s2, [socket_emit sock (StreamCreated sid),
                      io_emit (io s2) (StreamUpdate (getActiveStreamsInfo s2))])))"

definition join_stream ::
  "string \<Rightarrow> string \<Rightarrow> string \<Rightarrow> WebRTCService \<Rightarrow> WebRTCService \<times> emission list" where
  "join_stream sock sid uid s =
     (case Map_get (rooms s) sid of
        Some room \<Rightarrow>
          (let s1 = s\<lparr>rooms := Map_set (rooms s) sid (room\<lparr>viewers := viewers room @ [uid]\<rparr>)\<rparr>;
               s2 = s1\<lparr>io := socket_join sock sid (io s1)\<rparr>
           in (s2, [socket_to_emit (io s2) sock sid (ViewerJoined uid sid),
                    socket_to_emit (io s2) sock sid (StreamStarted sid uid),
                    io_emit (io s2) (StreamUpdate (getActiveStreamsInfo s2))]))
      | None \<Rightarrow> (s, [socket_emit sock (ErrorMsg ''Stream not found'')]))"

definition offer ::
  "string \<Rightarrow> string \<Rightarrow> payload \<Rightarrow> string option \<Rightarrow> WebRTCService
     \<Rightarrow> WebRTCService \<times> emission list" where
  "offer sock sid p uid s = (s, [socket_to_emit (io s) sock sid (OfferMsg p (js_or uid sock))])"

definition answer ::
  "string \<Rightarrow> string \<Rightarrow> payload \<Rightarrow> string option \<Rightarrow> WebRTCService
     \<Rightarrow> WebRTCService \<times> emission list" where
  "answer sock sid p uid s = (s, [socket_to_emit (io s) sock sid (AnswerMsg p (js_or uid sock))])"

definition ice_candidate ::
  "string \<Rightarrow> string \<Rightarrow> payload \<Rightarrow> string option \<Rightarrow> WebRTCService
     \<Rightarrow> WebRTCService \<times> emission list" where
  "ice_candidate sock sid p uid s =
     (s, [socket_to_emit (io s) sock sid (IceCandidateMsg p (js_or uid sock))])"

definition get_active_streams :: "string \<Rightarrow> WebRTCService \<Rightarrow> WebRTCService \<times> emission list" where
  "get_active_streams sock s = (s, [socket_emit sock (Callback (getActiveStreamsInfo s))])"

text \<open>
  \<^verbatim>\<open>this.rooms.forEach\<close> in \<^verbatim>\<open>handleDisconnect\<close>. The callback deletes or mutates
  only the entry it is visiting and adds none, so the loop visits the keys the map had
  at its start, in order, each with the room the map holds for it then.
\<close>

fun forEach_room :: "string \<Rightarrow> string list \<Rightarrow> WebRTCService \<Rightarrow> WebRTCService \<times> emission list" where
  "forEach_room socketId [] s = (s, [])"
| "forEach_room socketId (sid # ks) s =
     (case Map_get (rooms s) sid of
        None \<Rightarrow> forEach_room socketId ks s
      | Some room \<Rightarrow>
          if broadcaster room = socketId then
            (let ended = io_to_emit (io s) sid (StreamEnded sid);
                 s1 = s\<lparr>rooms := Map_delete (rooms s) sid\<rparr>;
                 upd = io_emit (io s1) (StreamUpdate (getActiveStreamsInfo s1));
                 (s2, out) = forEach_room socketId ks s1
             in (s2, ended # upd # out))
          else
            (let viewerIndex = findIndex (\<lambda>i. i = socketId) (viewers room)
             in if viewerIndex \<noteq> - 1 then
                  (let s1 = s\<lparr>rooms := Map_set (rooms s) sid
                                (room\<lparr>viewers := splice_js (viewers room) viewerIndex 1\<rparr>)\<rparr>;
                       upd = io_emit (io s1) (StreamUpdate (getActiveStreamsInfo s1));
                       (s2, out) = forEach_room socketId ks s1
                   in (s2, upd # out))
                else forEach_room socketId ks s))"

definition handleDisconnect :: "string \<Rightarrow> WebRTCService \<Rightarrow> WebRTCService \<times> emission list" where
  "handleDisconnect socketId s = forEach_room socketId (Map_keys (rooms s)) s"

subsection \<open>Events\<close>

text \<open>
  What a connection can send, with the fields of its payload. A \<^verbatim>\<open>create-stream\<close>
  carries the outcome of its creator lookup: its handler awaits the lookup and reads or
  writes the service only after it, so it is one step, taken when the lookup returns.
  Every other handler runs to its end without waiting. A sequence of events is in the
  order in which the handlers take effect.
\<close>

datatype event =
    Connection
  | CreateStream string string "string option" "string option" lookup
  | JoinStream string string
  | Offer string payload "string option"
  | Answer string payload "string option"
  | IceCandidate string payload "string option"
  | GetActiveStreams
  | Disconnect

fun step :: "string \<Rightarrow> event \<Rightarrow> WebRTCService \<Rightarrow> WebRTCService \<times> emission list" where
  "step sock Connection s = (s\<lparr>io := connection sock (io s)\<rparr>, [])"
| "step sock (CreateStream sid uid ttl cat found) s = create_stream sock sid uid ttl cat found s"
| "step sock (JoinStream sid uid) s = join_stream sock sid uid s"
| "step sock (Offer sid p uid) s = offer sock sid p uid s"
| "step sock (Answer sid p uid) s = answer sock sid p uid s"
| "step sock (IceCandidate sid p uid) s = ice_candidate sock sid p uid s"
| "step sock GetActiveStreams s = get_active_streams sock s"
| "step sock Disconnect s = handleDisconnect sock (s\<lparr>io := close sock (io s)\<rparr>)"

text \<open>A sequence of events, each with the connection it arrives on.\<close>

fun run :: "(string \<times> event) list \<Rightarrow> WebRTCService \<Rightarrow> WebRTCService \<times> emission list" where
  "run [] s = (s, [])"
| "run ((sock, e) # es) s =
     (let (s1, out1) = step sock e s;
          (s2, out2) = run es s1
      in (s2, out1 @ out2))"

text \<open>A concrete state: the room \<open>s1\<close> of user \<open>A\<close> with one viewer, and two open connections.\<close>

definition demo :: WebRTCService where
  "demo =
     \<lparr>io = \<lparr>sockets = {''sockA'', ''sockB''},
            members = (\<lambda>g. if g = ''s1'' then {''sockA'', ''sockB''} else {})\<rparr>,
      rooms = [(''s1'', \<lparr>broadcaster = ''A'', viewers = [''B''], streamId = ''s1'',
                        title = None, category = Some ''music''\<rparr>)]\<rparr>"

text \<open>The entry a room is expected to have in a snapshot, with the defaults spelled out.\<close>

definition summary :: "string \<Rightarrow> StreamRoom \<Rightarrow> StreamInfo" where
  "summary sid room =
     \<lparr>info_id = sid,
      info_title = (case title room of None \<Rightarrow> ''Untitled Stream''
                    | Some t \<Rightarrow> if t = [] then ''Untitled Stream'' else t),
      info_viewers = length (viewers room),
      info_category = (case category room of None \<Rightarrow> ''Uncategorized''
                       | Some c \<Rightarrow> if c = [] then ''Uncategorized'' else c),
      info_streamer = broadcaster room,
      info_isLive = True\<rparr>"

text \<open>
  What the loop of \<^verbatim>\<open>handleDisconnect\<close> leaves of a room it visits for the socket
  identifier \<open>c\<close>: nothing when \<open>c\<close> is its broadcaster, otherwise the room without
  the first \<open>c\<close> of its viewer list.
\<close>

definition cleaned :: "string \<Rightarrow> StreamRoom \<Rightarrow> StreamRoom option" where
  "cleaned c room =
     (if broadcaster room = c then None
      else Some (room\<lparr>viewers := remove1 c (viewers room)\<rparr>))"

text \<open>A create-stream for the stream identifier whose creator lookup finds an approved creator.\<close>

fun creates :: "string \<Rightarrow> event \<Rightarrow> bool" where
  "creates sid (CreateStream sid' uid ttl cat found) = (sid' = sid \<and> found = User True)"
| "creates sid e = False"

definition is_error :: "message \<Rightarrow> bool" where
  "is_error m = (case m of ErrorMsg t \<Rightarrow> True | _ \<Rightarrow> False)"

text \<open>
  The scenario of the specification with its identities kept apart: user \<open>A\<close> creates the
  stream \<open>s1\<close> on connection \<open>sockA\<close>, user \<open>B\<close> joins it on connection \<open>sockB\<close>.
\<close>

definition scenario :: "(string \<times> event) list" where
  "scenario =
     [(''sockA'', Connection), (''sockB'', Connection),
      (''sockA'', CreateStream ''s1'' ''A'' None None (User True)),
      (''sockB'', JoinStream ''s1'' ''B'')]"

text \<open>Events after a rejected request, none of them an accepted create-stream for \<open>s1\<close>.\<close>

definition later :: "(string \<times> event) list" where
  "later =
     [(''sockA'', Connection),
      (''sockA'', CreateStream ''s2'' ''A'' (Some ''talk'') None (User True)),
      (''sockX'', JoinStream ''s1'' ''X''),
      (''sockX'', CreateStream ''s1'' ''X'' None None Throws),
      (''sockX'', Disconnect)]"

text \<open>User \<open>A\<close> has created \<open>s1\<close> on \<open>sockA\<close>; \<open>sockX\<close> is open too.\<close>

definition taken :: "(string \<times> event) list" where
  "taken =
     [(''sockA'', Connection), (''sockX'', Connection),
      (''sockA'', CreateStream ''s1'' ''A'' None None (User True))]"

section \<open>Properties\<close>

subsection \<open>The map operations\<close>

lemma Map_keys_Nil [simp]: "Map_keys [] = []"
  by (simp add: Map_keys_def)

lemma Map_keys_Cons [simp]: "Map_keys ((k, v) # m) = k # Map_keys m"
  by (simp add: Map_keys_def)

lemma Map_get_set: "Map_get (Map_set m k v) k' = (if k' = k then Some v else Map_get m k')"
  by (induction m k v rule: Map_set.induct) auto

lemma Map_get_delete: "Map_get (Map_delete m k) k' = (if k' = k then None else Map_get m k')"
  by (induction m) (auto simp: Map_delete_def)

lemma Map_get_None_iff: "Map_get m k = None \<longleftrightarrow> k \<notin> set (Map_keys m)"
  by (induction m k rule: Map_get.induct) auto

lemma Map_get_Some_key: "Map_get m k = Some v \<Longrightarrow> k \<in> set (Map_keys m)"
  using Map_get_None_iff [of m k] by auto

lemma Map_keys_set:
  "Map_keys (Map_set m k v) = (if k \<in> set (Map_keys m) then Map_keys m else Map_keys m @ [k])"
  by (induction m k v rule: Map_set.induct) auto

lemma Map_keys_delete: "Map_keys (Map_delete m k) = removeAll k (Map_keys m)"
  by (induction m) (auto simp: Map_delete_def)

lemma distinct_Map_set: "distinct (Map_keys m) \<Longrightarrow> distinct (Map_keys (Map_set m k v))"
  by (simp add: Map_keys_set)

lemma distinct_Map_delete: "distinct (Map_keys m) \<Longrightarrow> distinct (Map_keys (Map_delete m k))"
  by (simp add: Map_keys_delete distinct_removeAll)

subsection \<open>Snapshots\<close>

lemma getActiveStreamsInfo_summary:
  "getActiveStreamsInfo s = map (\<lambda>(sid, room). summary sid room) (rooms s)"
  by (simp add: getActiveStreamsInfo_def summary_def js_or_def)

lemma getActiveStreamsInfo_ids: "map info_id (getActiveStreamsInfo s) = Map_keys (rooms s)"
  by (simp add: getActiveStreamsInfo_summary summary_def Map_keys_def case_prod_unfold comp_def)

lemma summaries_other_key:
  "k \<notin> set (Map_keys m) \<Longrightarrow>
   filter (\<lambda>e. info_id e = k) (map (\<lambda>(sid, room). summary sid room) m) = []"
  by (induction m) (auto simp: summary_def Map_keys_def)

lemma summaries_of_key:
  "distinct (Map_keys m) \<Longrightarrow> Map_get m k = Some room \<Longrightarrow>
   filter (\<lambda>e. info_id e = k) (map (\<lambda>(sid, room). summary sid room) m) = [summary k room]"
proof (induction m)
  case Nil
  then show ?case by simp
next
  case (Cons a m)
  obtain k' r' where a: "a = (k', r')" by (cases a)
  show ?case
  proof (cases "k' = k")
    case True
    with Cons.prems a have "r' = room" and "k \<notin> set (Map_keys m)"
      by (auto simp: Map_keys_def)
    with True a show ?thesis
      by (simp add: summaries_other_key) (simp add: summary_def)
  next
    case False
    with Cons a show ?thesis by (simp add: summary_def Map_keys_def)
  qed
qed

text \<open>
  C8. Every room of the store has exactly one entry in the snapshot, and the snapshot has
  no other entries: the entry carries the stream identifier, the room's title or
  "Untitled Stream" when the title is absent (or empty), the length of the viewer list,
  the category or "Uncategorized" when it is absent (or empty), the room's broadcaster
  as streamer, and isLive true.
\<close>

theorem getActiveStreamsInfo_entry:
  assumes "distinct (Map_keys (rooms s))" and "Map_get (rooms s) sid = Some room"
  shows "filter (\<lambda>e. info_id e = sid) (getActiveStreamsInfo s) =
           [\<lparr>info_id = sid,
             info_title = (case title room of None \<Rightarrow> ''Untitled Stream''
                           | Some t \<Rightarrow> if t = [] then ''Untitled Stream'' else t),
             info_viewers = length (viewers room),
             info_category = (case category room of None \<Rightarrow> ''Uncategorized''
                              | Some c \<Rightarrow> if c = [] then ''Uncategorized'' else c),
             info_streamer = broadcaster room,
             info_isLive = True\<rparr>]
         \<and> length (getActiveStreamsInfo s) = length (rooms s)"
  using summaries_of_key [OF assms] by (simp add: getActiveStreamsInfo_summary summary_def)

theorem getActiveStreamsInfo_entry_witness:
  "filter (\<lambda>e. info_id e = ''s1'') (getActiveStreamsInfo demo) =
     [\<lparr>info_id = ''s1'', info_title = ''Untitled Stream'', info_viewers = 1,
       info_category = ''music'', info_streamer = ''A'', info_isLive = True\<rparr>]"
proof -
  have d: "distinct (Map_keys (rooms demo))"
    by (simp add: demo_def Map_keys_def)
  have g: "Map_get (rooms demo) ''s1'' =
             Some \<lparr>broadcaster = ''A'', viewers = [''B''], streamId = ''s1'',
                   title = None, category = Some ''music''\<rparr>"
    by (simp add: demo_def)
  show ?thesis using getActiveStreamsInfo_entry [OF d g] by simp
qed

text \<open>
  C9. A get-active-streams request leaves the whole service state as it was, and a second
  request right after it (from any connection) is answered with the same snapshot.
\<close>

theorem get_active_streams_twice:
  "fst (step c GetActiveStreams s) = s \<and>
   map snd (snd (step c' GetActiveStreams (fst (step c GetActiveStreams s)))) =
     map snd (snd (step c GetActiveStreams s)) \<and>
   snd (step c GetActiveStreams s) = [({c}, Callback (getActiveStreamsInfo s))]"
  by (simp add: get_active_streams_def socket_emit_def)

subsection \<open>Relaying\<close>

text \<open>
  C10. When the userId of an offer, answer or ice-candidate payload is missing or the
  empty string, the relayed event carries the identifier of the sending connection as
  its userId.
\<close>

theorem relay_userId_falls_back_to_socket_id:
  assumes "uid = None \<or> uid = Some []"
  shows "map snd (snd (step sock (Offer sid p uid) s)) = [OfferMsg p sock] \<and>
         map snd (snd (step sock (Answer sid p uid) s)) = [AnswerMsg p sock] \<and>
         map snd (snd (step sock (IceCandidate sid p uid) s)) = [IceCandidateMsg p sock]"
  using assms
  by (auto simp: offer_def answer_def ice_candidate_def socket_to_emit_def js_or_def)

theorem relay_userId_falls_back_to_socket_id_witness:
  "map snd (snd (step ''sockB'' (Offer ''s1'' ''sdp'' None) demo)) = [OfferMsg ''sdp'' ''sockB''] \<and>
   map snd (snd (step ''sockB'' (Answer ''s1'' ''sdp'' None) demo)) = [AnswerMsg ''sdp'' ''sockB''] \<and>
   map snd (snd (step ''sockB'' (IceCandidate ''s1'' ''sdp'' None) demo)) =
     [IceCandidateMsg ''sdp'' ''sockB'']"
proof -
  have h: "(None :: string option) = None \<or> None = Some []" by simp
  show ?thesis
    using relay_userId_falls_back_to_socket_id [OF h, of "''sockB''" "''s1''" "''sdp''" demo]
    by simp
qed

text \<open>
  C5. An offer, answer or ice-candidate sent by a connection is not delivered to that
  connection, and every other member of the named group at the time of the send
  receives the relayed event, once.
\<close>

theorem relay_reaches_the_others:
  "delivered_to sock (snd (step sock (Offer sid p uid) s)) = [] \<and>
   delivered_to sock (snd (step sock (Answer sid p uid) s)) = [] \<and>
   delivered_to sock (snd (step sock (IceCandidate sid p uid) s)) = [] \<and>
   (\<forall>c \<in> members (io s) sid - {sock}.
      delivered_to c (snd (step sock (Offer sid p uid) s)) = [OfferMsg p (js_or uid sock)] \<and>
      delivered_to c (snd (step sock (Answer sid p uid) s)) = [AnswerMsg p (js_or uid sock)] \<and>
      delivered_to c (snd (step sock (IceCandidate sid p uid) s)) =
        [IceCandidateMsg p (js_or uid sock)])"
  by (simp add: offer_def answer_def ice_candidate_def socket_to_emit_def delivered_to_def)

theorem relay_reaches_the_others_witness:
  "delivered_to ''sockA'' (snd (step ''sockB'' (Offer ''s1'' ''sdp'' (Some ''B'')) demo)) =
     [OfferMsg ''sdp'' ''B''] \<and>
   delivered_to ''sockB'' (snd (step ''sockB'' (Offer ''s1'' ''sdp'' (Some ''B'')) demo)) = []"
proof -
  have m: "''sockA'' \<in> members (io demo) ''s1'' - {''sockB''}"
    by (simp add: demo_def)
  show ?thesis
    using m relay_reaches_the_others [of "''sockB''" "''s1''" "''sdp''" "Some ''B''" demo]
    by (simp add: js_or_def)
qed

subsection \<open>Joining and creating\<close>

text \<open>
  C7. A join-stream naming a stream identifier that has no room changes nothing in the
  service state and makes one emission only: the error event, to the requesting
  connection alone. In particular no room-list snapshot is broadcast.
\<close>

theorem join_unknown_stream:
  assumes "Map_get (rooms s) sid = None"
  shows "step sock (JoinStream sid uid) s = (s, [({sock}, ErrorMsg ''Stream not found'')])"
  using assms by (simp add: join_stream_def socket_emit_def)

theorem join_unknown_stream_witness:
  "step ''sockB'' (JoinStream ''s2'' ''B'') demo =
     (demo, [({''sockB''}, ErrorMsg ''Stream not found'')])"
proof -
  have h: "Map_get (rooms demo) ''s2'' = None"
    by (simp add: demo_def)
  show ?thesis using join_unknown_stream [OF h] by simp
qed

text \<open>
  C6. A create-stream whose creator lookup finds an approved creator always creates the
  room: afterwards the store maps the stream identifier to a room with the userId of
  the request as broadcaster, the given title and category and no viewers, whatever the
  store held under that identifier before; the requester is told so and the new
  snapshot goes to every connection.
\<close>

theorem create_stream_overwrites:
  "Map_get (rooms (fst (step sock (CreateStream sid uid ttl cat (User True)) s))) sid =
     Some \<lparr>broadcaster = uid, viewers = [], streamId = sid, title = ttl, category = cat\<rparr> \<and>
   snd (step sock (CreateStream sid uid ttl cat (User True)) s) =
     [({sock}, StreamCreated sid),
      (sockets (io s),
       StreamUpdate (getActiveStreamsInfo (fst (step sock (CreateStream sid uid ttl cat (User True)) s))))]"
  by (simp add: create_stream_def Let_def Map_get_set socket_emit_def io_emit_def socket_join_def)

subsection \<open>The loop of \<^verbatim>\<open>handleDisconnect\<close>\<close>

lemma findIndex_ge: "- 1 \<le> findIndex P xs"
  by (induction xs) (auto simp: Let_def)

lemma findIndex_none_iff: "findIndex P xs = - 1 \<longleftrightarrow> (\<forall>x \<in> set xs. \<not> P x)"
proof (induction xs)
  case Nil
  then show ?case by simp
next
  case (Cons x xs)
  with findIndex_ge [of P xs] show ?case by (auto simp: Let_def)
qed

lemma findIndex_eq_none_iff: "findIndex (\<lambda>i. i = c) xs = - 1 \<longleftrightarrow> c \<notin> set xs"
  by (auto simp: findIndex_none_iff)

lemma splice_findIndex:
  "c \<in> set xs \<Longrightarrow> splice_js xs (findIndex (\<lambda>i. i = c) xs) 1 = remove1 c xs"
proof (induction xs)
  case Nil
  then show ?case by simp
next
  case (Cons x xs)
  show ?case
  proof (cases "x = c")
    case True
    then show ?thesis by (simp add: splice_js_def)
  next
    case False
    with Cons.prems have mem: "c \<in> set xs" by simp
    then have ne: "findIndex (\<lambda>i. i = c) xs \<noteq> - 1"
      by (simp add: findIndex_eq_none_iff)
    with findIndex_ge [of "\<lambda>i. i = c" xs] have ge: "0 \<le> findIndex (\<lambda>i. i = c) xs"
      by linarith
    from Cons.IH [OF mem] False ne ge show ?thesis
      by (simp add: splice_js_def Let_def nat_add_distrib)
  qed
qed

lemma forEach_room_get:
  "distinct ks \<Longrightarrow>
   Map_get (rooms (fst (forEach_room c ks s))) k =
     (if k \<in> set ks
      then (case Map_get (rooms s) k of None \<Rightarrow> None | Some room \<Rightarrow> cleaned c room)
      else Map_get (rooms s) k)"
proof (induction ks arbitrary: s)
  case Nil
  then show ?case by simp
next
  case (Cons a ks)
  then have d: "distinct ks" and a: "a \<notin> set ks" by simp_all
  show ?case
  proof (cases "Map_get (rooms s) a")
    case None
    with Cons.IH [OF d, of s] a show ?thesis by auto
  next
    case (Some room)
    show ?thesis
    proof (cases "broadcaster room = c")
      case True
      with Some Cons.IH [OF d, of "s\<lparr>rooms := Map_delete (rooms s) a\<rparr>"] a show ?thesis
        by (auto simp: Let_def case_prod_unfold Map_get_delete cleaned_def)
    next
      case False
      show ?thesis
      proof (cases "c \<in> set (viewers room)")
        case True
        with False Some a
          Cons.IH [OF d, of "s\<lparr>rooms := Map_set (rooms s) a (room\<lparr>viewers := remove1 c (viewers room)\<rparr>)\<rparr>"]
        show ?thesis
          by (auto simp: Let_def case_prod_unfold Map_get_set cleaned_def
                findIndex_eq_none_iff splice_findIndex simp del: One_nat_def)
      next
        case nv: False
        with False Some a Cons.IH [OF d, of s] show ?thesis
          by (auto simp: Let_def case_prod_unfold cleaned_def findIndex_eq_none_iff remove1_idem)
      qed
    qed
  qed
qed

lemma forEach_room_keys:
  "set (Map_keys (rooms (fst (forEach_room c ks s)))) \<subseteq> set (Map_keys (rooms s))"
proof (induction ks arbitrary: s)
  case Nil
  then show ?case by simp
next
  case (Cons a ks)
  show ?case
  proof (cases "Map_get (rooms s) a")
    case None
    with Cons.IH [of s] show ?thesis by simp
  next
    case (Some room)
    have in_keys: "a \<in> set (Map_keys (rooms s))"
      using Some Map_get_None_iff [of "rooms s" a] by auto
    show ?thesis
      using Some in_keys Cons.IH [of s]
        Cons.IH [of "s\<lparr>rooms := Map_delete (rooms s) a\<rparr>"]
        Cons.IH [of "s\<lparr>rooms := Map_set (rooms s) a
            (room\<lparr>viewers := splice_js (viewers room) (findIndex (\<lambda>i. i = c) (viewers room)) 1\<rparr>)\<rparr>"]
      by (auto simp: Let_def case_prod_unfold Map_keys_delete Map_keys_set)
  qed
qed

lemma forEach_room_distinct:
  "distinct (Map_keys (rooms s)) \<Longrightarrow> distinct (Map_keys (rooms (fst (forEach_room c ks s))))"
proof (induction ks arbitrary: s)
  case Nil
  then show ?case by simp
next
  case (Cons a ks)
  show ?case
  proof (cases "Map_get (rooms s) a")
    case None
    with Cons show ?thesis by simp
  next
    case (Some room)
    have in_keys: "a \<in> set (Map_keys (rooms s))"
      using Some Map_get_None_iff [of "rooms s" a] by auto
    show ?thesis
      using Some in_keys Cons.prems Cons.IH [of s]
        Cons.IH [of "s\<lparr>rooms := Map_delete (rooms s) a\<rparr>"]
        Cons.IH [of "s\<lparr>rooms := Map_set (rooms s) a
            (room\<lparr>viewers := splice_js (viewers room) (findIndex (\<lambda>i. i = c) (viewers room)) 1\<rparr>)\<rparr>"]
      by (auto simp: Let_def case_prod_unfold Map_keys_delete Map_keys_set distinct_removeAll)
  qed
qed

lemma forEach_room_io: "io (fst (forEach_room c ks s)) = io s"
proof (induction ks arbitrary: s)
  case Nil
  then show ?case by simp
next
  case (Cons a ks)
  show ?case
    using Cons.IH [of s]
        Cons.IH [of "s\<lparr>rooms := Map_delete (rooms s) a\<rparr>"]
        Cons.IH [of "s\<lparr>rooms := Map_set (rooms s) a
            (room\<lparr>viewers := splice_js (viewers room) (findIndex (\<lambda>i. i = c) (viewers room)) 1\<rparr>)\<rparr>" for room]
      by (auto simp: Let_def case_prod_unfold split: option.splits)
qed


lemma forEach_room_ended:
  "distinct ks \<Longrightarrow>
   filter (\<lambda>e. snd e = StreamEnded sid) (snd (forEach_room c ks s)) =
     (if sid \<in> set ks \<and> (case Map_get (rooms s) sid of None \<Rightarrow> False
                                | Some room \<Rightarrow> broadcaster room = c)
      then [(members (io s) sid, StreamEnded sid)] else [])"
proof (induction ks arbitrary: s)
  case Nil
  then show ?case by simp
next
  case (Cons a ks)
  then have d: "distinct ks" and a: "a \<notin> set ks" by simp_all
  show ?case
  proof (cases "Map_get (rooms s) a")
    case None
    with Cons.IH [OF d, of s] a show ?thesis by auto
  next
    case (Some room)
    show ?thesis
    proof (cases "broadcaster room = c")
      case True
      with Some Cons.IH [OF d, of "s\<lparr>rooms := Map_delete (rooms s) a\<rparr>"] a show ?thesis
        by (auto simp: Let_def case_prod_unfold Map_get_delete io_to_emit_def io_emit_def)
    next
      case False
      with Some a Cons.IH [OF d, of s]
        Cons.IH [OF d, of "s\<lparr>rooms := Map_set (rooms s) a
            (room\<lparr>viewers := splice_js (viewers room) (findIndex (\<lambda>i. i = c) (viewers room)) 1\<rparr>)\<rparr>"]
      show ?thesis
        by (auto simp: Let_def case_prod_unfold Map_get_set io_emit_def)
    qed
  qed
qed

lemma forEach_room_update:
  "sid \<in> set ks \<Longrightarrow> Map_get (rooms s) sid = Some room \<Longrightarrow> broadcaster room = c \<Longrightarrow>
   \<exists>snap. (sockets (io s), StreamUpdate snap) \<in> set (snd (forEach_room c ks s)) \<and>
          sid \<notin> set (map info_id snap)"
proof (induction ks arbitrary: s)
  case Nil
  then show ?case by simp
next
  case (Cons a ks)
  show ?case
  proof (cases "a = sid")
    case True
    have "(sockets (io s), StreamUpdate (getActiveStreamsInfo (s\<lparr>rooms := Map_delete (rooms s) sid\<rparr>)))
            \<in> set (snd (forEach_room c (a # ks) s))"
      using True Cons.prems by (simp add: Let_def case_prod_unfold io_emit_def)
    moreover have "sid \<notin> set (map info_id (getActiveStreamsInfo (s\<lparr>rooms := Map_delete (rooms s) sid\<rparr>)))"
      by (simp add: getActiveStreamsInfo_ids Map_keys_delete)
    ultimately show ?thesis by blast
  next
    case False
    with Cons.prems have mem: "sid \<in> set ks" by simp
    show ?thesis
    proof (cases "Map_get (rooms s) a")
      case None
      with Cons.IH [OF mem Cons.prems(2,3)] show ?thesis by simp
    next
      case (Some r)
      let ?sd = "s\<lparr>rooms := Map_delete (rooms s) a\<rparr>"
      let ?sv = "s\<lparr>rooms := Map_set (rooms s) a
            (r\<lparr>viewers := splice_js (viewers r) (findIndex (\<lambda>i. i = c) (viewers r)) 1\<rparr>)\<rparr>"
      have gd: "Map_get (rooms ?sd) sid = Some room"
        using False Cons.prems(2) by (simp add: Map_get_delete)
      have gv: "Map_get (rooms ?sv) sid = Some room"
        using False Cons.prems(2) by (simp add: Map_get_set)
      from Cons.IH [OF mem gd Cons.prems(3)] Cons.IH [OF mem gv Cons.prems(3)]
        Cons.IH [OF mem Cons.prems(2,3)] Some
      show ?thesis
        by (auto simp: Let_def case_prod_unfold simp del: One_nat_def)
    qed
  qed
qed

lemma count_filter_singleton:
  "filter (\<lambda>e. snd e = m) out = [(R, m)] \<Longrightarrow> c \<in> R \<Longrightarrow>
   length (filter (\<lambda>x. x = m) (delivered_to c out)) = 1"
proof -
  assume f: "filter (\<lambda>e. snd e = m) out = [(R, m)]" and c: "c \<in> R"
  have "filter (\<lambda>x. x = m) (delivered_to c out) =
          map snd (filter (\<lambda>e. c \<in> fst e) (filter (\<lambda>e. snd e = m) out))"
    by (simp add: delivered_to_def filter_map comp_def conj_commute)
  with f c show ?thesis by simp
qed

lemma broadcaster_id_disconnect:
  assumes "distinct (Map_keys (rooms s))"
      and "Map_get (rooms s) sid = Some room"
      and "broadcaster room = sock"
  shows "sid \<notin> set (Map_keys (rooms (fst (step sock Disconnect s)))) \<and>
         (\<forall>c \<in> members (io s) sid - {sock}.
            length (filter (\<lambda>m. m = StreamEnded sid)
                      (delivered_to c (snd (step sock Disconnect s)))) = 1) \<and>
         (\<exists>snap. (sockets (io s) - {sock}, StreamUpdate snap) \<in> set (snd (step sock Disconnect s)) \<and>
                 sid \<notin> set (map info_id snap))"
proof -
  let ?s0 = "s\<lparr>io := close sock (io s)\<rparr>"
  have k: "sid \<in> set (Map_keys (rooms s))"
    using assms(2) by (rule Map_get_Some_key)
  have gone: "Map_get (rooms (fst (step sock Disconnect s))) sid = None"
    using forEach_room_get [OF assms(1), of sock ?s0 sid] k assms(2,3)
    by (simp add: handleDisconnect_def cleaned_def)
  have ended: "filter (\<lambda>e. snd e = StreamEnded sid) (snd (step sock Disconnect s)) =
                 [(members (io s) sid - {sock}, StreamEnded sid)]"
    using forEach_room_ended [OF assms(1), of sid sock ?s0] k assms(2,3)
    by (simp add: handleDisconnect_def close_def)
  have upd: "\<exists>snap. (sockets (io s) - {sock}, StreamUpdate snap) \<in> set (snd (step sock Disconnect s)) \<and>
                 sid \<notin> set (map info_id snap)"
    using forEach_room_update [of sid "Map_keys (rooms s)" ?s0 room sock] k assms(2,3)
    by (simp add: handleDisconnect_def close_def)
  from gone have "sid \<notin> set (Map_keys (rooms (fst (step sock Disconnect s))))"
    by (simp add: Map_get_None_iff)
  moreover have "\<forall>c \<in> members (io s) sid - {sock}.
            length (filter (\<lambda>m. m = StreamEnded sid)
                      (delivered_to c (snd (step sock Disconnect s)))) = 1"
  proof
    fix c
    assume "c \<in> members (io s) sid - {sock}"
    with ended show "length (filter (\<lambda>m. m = StreamEnded sid)
                      (delivered_to c (snd (step sock Disconnect s)))) = 1"
      by (rule count_filter_singleton)
  qed
  ultimately show ?thesis using upd by blast
qed


subsection \<open>Traces\<close>

lemmas handler_defs =
  create_stream_def join_stream_def offer_def answer_def ice_candidate_def
  get_active_streams_def handleDisconnect_def getActiveStreamsInfo_def js_or_def
  socket_emit_def socket_to_emit_def io_to_emit_def io_emit_def socket_join_def
  connection_def close_def init_def Map_delete_def splice_js_def

text \<open>The keys of the store stay distinct, as those of a \<^verbatim>\<open>Map\<close> are.\<close>

lemma step_distinct:
  assumes "distinct (Map_keys (rooms s))"
  shows "distinct (Map_keys (rooms (fst (step c e s))))"
proof (cases e)
  case (CreateStream sid uid ttl cat found)
  with assms show ?thesis
    by (auto simp: create_stream_def Let_def Map_keys_set split: lookup.splits)
next
  case (JoinStream sid uid)
  with assms show ?thesis
    by (auto simp: join_stream_def Let_def Map_keys_set split: option.splits)
next
  case Disconnect
  with assms forEach_room_distinct [of "s\<lparr>io := close c (io s)\<rparr>" c "Map_keys (rooms s)"]
  show ?thesis by (simp add: handleDisconnect_def)
qed (use assms in \<open>simp_all add: offer_def answer_def ice_candidate_def get_active_streams_def\<close>)

lemma run_distinct:
  "distinct (Map_keys (rooms s)) \<Longrightarrow> distinct (Map_keys (rooms (fst (run es s))))"
proof (induction es arbitrary: s)
  case Nil
  then show ?case by simp
next
  case (Cons a es)
  obtain c e where a: "a = (c, e)" by (cases a)
  from Cons.prems have "distinct (Map_keys (rooms (fst (step c e s))))"
    by (rule step_distinct)
  from Cons.IH [OF this] a show ?case
    by (simp add: case_prod_unfold Let_def)
qed

lemma reachable_distinct: "distinct (Map_keys (rooms (fst (run es init))))"
  by (rule run_distinct) (simp add: init_def)

lemma step_keys:
  assumes "\<not> creates sid e" and "sid \<notin> set (Map_keys (rooms s))"
  shows "sid \<notin> set (Map_keys (rooms (fst (step c e s))))"
proof (cases e)
  case (CreateStream sid' uid ttl cat found)
  with assms show ?thesis
    by (auto simp: create_stream_def Let_def Map_keys_set split: lookup.splits if_splits)
next
  case (JoinStream sid' uid)
  with assms show ?thesis
    by (auto simp: join_stream_def Let_def Map_keys_set split: option.splits
          dest: Map_get_Some_key)
next
  case Disconnect
  with assms forEach_room_keys [of c "Map_keys (rooms s)" "s\<lparr>io := close c (io s)\<rparr>"]
  show ?thesis by (auto simp: handleDisconnect_def)
qed (use assms in \<open>simp_all add: offer_def answer_def ice_candidate_def get_active_streams_def\<close>)

lemma run_keys:
  "\<forall>e \<in> set es. \<not> creates sid (snd e) \<Longrightarrow> sid \<notin> set (Map_keys (rooms s)) \<Longrightarrow>
   sid \<notin> set (Map_keys (rooms (fst (run es s))))"
proof (induction es arbitrary: s)
  case Nil
  then show ?case by simp
next
  case (Cons a es)
  obtain c e where a: "a = (c, e)" by (cases a)
  with Cons.prems have "sid \<notin> set (Map_keys (rooms (fst (step c e s))))"
    by (simp add: step_keys)
  with Cons.IH [of "fst (step c e s)"] Cons.prems a show ?case
    by (simp add: case_prod_unfold Let_def)
qed

lemma join_run:
  "Map_get (rooms s) sid = Some room \<Longrightarrow>
   Map_get (rooms (fst (run (map (\<lambda>j. (fst j, JoinStream sid (snd j))) js) s))) sid =
     Some (room\<lparr>viewers := viewers room @ map snd js\<rparr>) \<and>
   Map_keys (rooms (fst (run (map (\<lambda>j. (fst j, JoinStream sid (snd j))) js) s))) =
     Map_keys (rooms s) \<and>
   filter (\<lambda>e. is_error (snd e)) (snd (run (map (\<lambda>j. (fst j, JoinStream sid (snd j))) js) s)) = []"
proof (induction js arbitrary: s room)
  case Nil
  then show ?case by simp
next
  case (Cons j js)
  let ?s1 = "fst (step (fst j) (JoinStream sid (snd j)) s)"
  have in_keys: "sid \<in> set (Map_keys (rooms s))"
    using Cons.prems Map_get_None_iff [of "rooms s" sid] by auto
  have g1: "Map_get (rooms ?s1) sid = Some (room\<lparr>viewers := viewers room @ [snd j]\<rparr>)"
    using Cons.prems by (simp add: join_stream_def Let_def Map_get_set)
  have k1: "Map_keys (rooms ?s1) = Map_keys (rooms s)"
    using Cons.prems in_keys by (simp add: join_stream_def Let_def Map_keys_set)
  have o1: "filter (\<lambda>e. is_error (snd e)) (snd (step (fst j) (JoinStream sid (snd j)) s)) = []"
    using Cons.prems
    by (simp add: join_stream_def Let_def socket_to_emit_def io_emit_def is_error_def)
  from Cons.IH [OF g1] k1 o1 show ?case
    by (simp add: case_prod_unfold Let_def)
qed


lemma joins_without_room:
  "sid \<notin> set (Map_keys (rooms s)) \<Longrightarrow>
   run (map (\<lambda>j. (fst j, JoinStream sid (snd j))) js) s =
     (s, map (\<lambda>j. ({fst j}, ErrorMsg ''Stream not found'')) js)"
proof (induction js)
  case Nil
  then show ?case by simp
next
  case (Cons j js)
  from Cons.prems have "Map_get (rooms s) sid = None"
    by (simp add: Map_get_None_iff)
  with Cons show ?case
    by (simp add: join_stream_def socket_emit_def)
qed

text \<open>
  C4. After a create-stream of an approved creator for a stream identifier and any number
  of join-stream requests naming it (from any connections, with any identities, repeated
  or not), no join was answered with an error, and a get-active-streams request is
  answered with a snapshot whose entry for the stream reports as many viewers as there
  were joins.
\<close>

theorem viewer_count_after_joins:
  assumes "distinct (Map_keys (rooms s))"
  shows "filter (\<lambda>e. is_error (snd e))
           (snd (run ((sock, CreateStream sid uid ttl cat (User True))
                      # map (\<lambda>j. (fst j, JoinStream sid (snd j))) js) s)) = [] \<and>
         snd (step c GetActiveStreams
                (fst (run ((sock, CreateStream sid uid ttl cat (User True))
                           # map (\<lambda>j. (fst j, JoinStream sid (snd j))) js) s))) =
           [({c}, Callback (getActiveStreamsInfo
                (fst (run ((sock, CreateStream sid uid ttl cat (User True))
                           # map (\<lambda>j. (fst j, JoinStream sid (snd j))) js) s))))] \<and>
         map info_viewers (filter (\<lambda>e. info_id e = sid) (getActiveStreamsInfo
                (fst (run ((sock, CreateStream sid uid ttl cat (User True))
                           # map (\<lambda>j. (fst j, JoinStream sid (snd j))) js) s)))) =
           [length js]"
proof -
  let ?create = "CreateStream sid uid ttl cat (User True)"
  let ?s1 = "fst (step sock ?create s)"
  let ?joins = "map (\<lambda>j. (fst j, JoinStream sid (snd j))) js"
  let ?room = "\<lparr>broadcaster = uid, viewers = [], streamId = sid, title = ttl, category = cat\<rparr>"
  have g1: "Map_get (rooms ?s1) sid = Some ?room"
    by (simp add: create_stream_def Let_def Map_get_set)
  have d1: "distinct (Map_keys (rooms ?s1))"
    using assms by (simp add: create_stream_def Let_def Map_keys_set)
  have o1: "filter (\<lambda>e. is_error (snd e)) (snd (step sock ?create s)) = []"
    by (simp add: create_stream_def Let_def socket_emit_def io_emit_def is_error_def)
  note j = join_run [OF g1, of js]
  let ?s2 = "fst (run ?joins ?s1)"
  have d2: "distinct (Map_keys (rooms ?s2))"
    using j d1 by simp
  have g2: "Map_get (rooms ?s2) sid = Some (?room\<lparr>viewers := viewers ?room @ map snd js\<rparr>)"
    using j by simp
  have cnt: "map info_viewers (filter (\<lambda>e. info_id e = sid) (getActiveStreamsInfo ?s2)) =
               [length js]"
    using summaries_of_key [OF d2 g2] by (simp add: getActiveStreamsInfo_summary summary_def)
  have r: "run ((sock, ?create) # ?joins) s =
             (?s2, snd (step sock ?create s) @ snd (run ?joins ?s1))"
    by (simp add: case_prod_unfold Let_def)
  show ?thesis
    using o1 j cnt unfolding r by (simp add: get_active_streams_def socket_emit_def)
qed

theorem viewer_count_after_joins_witness:
  "filter (\<lambda>e. is_error (snd e))
     (snd (run ((''sockA'', CreateStream ''s1'' ''A'' None None (User True))
                # map (\<lambda>j. (fst j, JoinStream ''s1'' (snd j)))
                    [(''sockB'', ''B''), (''sockC'', ''B''), (''sockB'', ''B'')]) init)) = [] \<and>
   snd (step ''sockD'' GetActiveStreams
          (fst (run ((''sockA'', CreateStream ''s1'' ''A'' None None (User True))
                     # map (\<lambda>j. (fst j, JoinStream ''s1'' (snd j)))
                         [(''sockB'', ''B''), (''sockC'', ''B''), (''sockB'', ''B'')]) init))) =
     [({''sockD''}, Callback (getActiveStreamsInfo
          (fst (run ((''sockA'', CreateStream ''s1'' ''A'' None None (User True))
                     # map (\<lambda>j. (fst j, JoinStream ''s1'' (snd j)))
                         [(''sockB'', ''B''), (''sockC'', ''B''), (''sockB'', ''B'')]) init))))] \<and>
   map info_viewers (filter (\<lambda>e. info_id e = ''s1'') (getActiveStreamsInfo
          (fst (run ((''sockA'', CreateStream ''s1'' ''A'' None None (User True))
                     # map (\<lambda>j. (fst j, JoinStream ''s1'' (snd j)))
                         [(''sockB'', ''B''), (''sockC'', ''B''), (''sockB'', ''B'')]) init)))) =
     [length [(''sockB'', ''B''), (''sockC'', ''B''), (''sockB'', ''B'')]]"
proof -
  have d: "distinct (Map_keys (rooms init))"
    by (simp add: init_def)
  show ?thesis by (rule viewer_count_after_joins [OF d])
qed

text \<open>
  C3, as the code has it. Every create-stream whose creator lookup throws, finds no user
  or finds a user who is not a creator is answered with the rejection event, to the
  requester alone, and leaves the whole service state as it was, whatever the store
  holds: a room that exists under the requested identifier stays, and everything that
  happens afterwards is what would have happened without the request. If the store held
  no room under the identifier, then after any further events, none of them a
  create-stream for that identifier by an approved creator, the identifier is in no
  snapshot.
\<close>

theorem rejected_create_stream:
  assumes "found \<noteq> User True"
  shows "step sock (CreateStream sid uid ttl cat found) s =
           (s, [({sock}, StreamCreationFailed
                   (if found = Throws then ''Failed to verify creator status.''
                    else ''Only approved creators can start a stream.''))]) \<and>
         getActiveStreamsInfo (fst (step sock (CreateStream sid uid ttl cat found) s)) =
           getActiveStreamsInfo s \<and>
         run es (fst (step sock (CreateStream sid uid ttl cat found) s)) = run es s \<and>
         (sid \<notin> set (Map_keys (rooms s)) \<and> (\<forall>e \<in> set es. \<not> creates sid (snd e)) \<longrightarrow>
          sid \<notin> set (map info_id (getActiveStreamsInfo
                   (fst (run es (fst (step sock (CreateStream sid uid ttl cat found) s)))))))"
proof -
  have rejected: "step sock (CreateStream sid uid ttl cat found) s =
           (s, [({sock}, StreamCreationFailed
                   (if found = Throws then ''Failed to verify creator status.''
                    else ''Only approved creators can start a stream.''))])"
    using assms by (auto simp: create_stream_def socket_emit_def split: lookup.splits)
  have absent: "sid \<notin> set (map info_id (getActiveStreamsInfo (fst (run es s))))"
    if "sid \<notin> set (Map_keys (rooms s))" and "\<forall>e \<in> set es. \<not> creates sid (snd e)"
    using run_keys [OF that(2) that(1)] by (simp add: getActiveStreamsInfo_ids)
  show ?thesis
    unfolding rejected using absent by simp
qed

theorem rejected_create_stream_witness:
  "step ''sockX'' (CreateStream ''s1'' ''X'' None None (User False)) init =
     (init, [({''sockX''},
              StreamCreationFailed ''Only approved creators can start a stream.'')]) \<and>
   ''s1'' \<notin> set (map info_id (getActiveStreamsInfo
      (fst (run later
         (fst (step ''sockX'' (CreateStream ''s1'' ''X'' None None (User False)) init)))))) \<and>
   step ''sockX'' (CreateStream ''s1'' ''X'' None None Throws) (fst (run taken init)) =
     (fst (run taken init),
      [({''sockX''}, StreamCreationFailed ''Failed to verify creator status.'')]) \<and>
   map info_id (getActiveStreamsInfo
     (fst (step ''sockX'' (CreateStream ''s1'' ''X'' None None Throws) (fst (run taken init))))) =
     [''s1'']"
proof -
  have h1: "User False \<noteq> User True" by simp
  have h2: "''s1'' \<notin> set (Map_keys (rooms init))"
    by (simp add: init_def)
  have h3: "\<forall>e \<in> set later. \<not> creates ''s1'' (snd e)"
    by (simp add: later_def)
  have h4: "Throws \<noteq> User True" by simp
  have ids: "map info_id (getActiveStreamsInfo (fst (run taken init))) = [''s1'']"
    by (simp add: taken_def handler_defs Let_def)
  note fresh = rejected_create_stream [OF h1, of "''sockX''" "''s1''" "''X''" None None init later]
  note held = rejected_create_stream
                [OF h4, of "''sockX''" "''s1''" "''X''" None None "fst (run taken init)" "[]"]
  have a: "step ''sockX'' (CreateStream ''s1'' ''X'' None None (User False)) init =
     (init, [({''sockX''},
              StreamCreationFailed ''Only approved creators can start a stream.'')])"
    using fresh by (elim conjE) (simp del: step.simps)
  have b: "''s1'' \<notin> set (map info_id (getActiveStreamsInfo
      (fst (run later
         (fst (step ''sockX'' (CreateStream ''s1'' ''X'' None None (User False)) init))))))"
    using fresh h2 h3 by (elim conjE) blast
  have c: "step ''sockX'' (CreateStream ''s1'' ''X'' None None Throws) (fst (run taken init)) =
     (fst (run taken init),
      [({''sockX''}, StreamCreationFailed ''Failed to verify creator status.'')])"
    using held by (elim conjE) (simp del: step.simps)
  have d: "map info_id (getActiveStreamsInfo
     (fst (step ''sockX'' (CreateStream ''s1'' ''X'' None None Throws) (fst (run taken init))))) =
     [''s1'']"
    using held ids by (elim conjE) (simp del: step.simps)
  from a b c d show ?thesis by blast
qed

text \<open>
  C3, as the claim words it, fails where the store already holds a room under the
  requested identifier: user \<open>A\<close> has created \<open>s1\<close>, the create-stream of \<open>X\<close> for
  \<open>s1\<close> is rejected, no create-stream follows, and \<open>s1\<close> is in the snapshot.
\<close>

theorem rejected_create_stream_counterexample:
  "snd (step ''sockX'' (CreateStream ''s1'' ''X'' None None (User False))
          (fst (run [(''sockA'', Connection), (''sockX'', Connection),
                     (''sockA'', CreateStream ''s1'' ''A'' None None (User True))] init))) =
     [({''sockX''}, StreamCreationFailed ''Only approved creators can start a stream.'')] \<and>
   map info_id (getActiveStreamsInfo
     (fst (step ''sockX'' (CreateStream ''s1'' ''X'' None None (User False))
          (fst (run [(''sockA'', Connection), (''sockX'', Connection),
                     (''sockA'', CreateStream ''s1'' ''A'' None None (User True))] init))))) =
     [''s1'']"
  by (simp add: handler_defs Let_def)

subsection \<open>Disconnecting\<close>

text \<open>
  What \<^verbatim>\<open>handleDisconnect\<close> does to a room whose stored broadcaster differs from the
  socket identifier it is called with: it removes the first occurrence of that socket
  identifier from the stored viewer list, and nothing else.
\<close>

lemma disconnect_stored_identifier:
  assumes "distinct (Map_keys (rooms s))"
      and "Map_get (rooms s) sid = Some room"
      and "broadcaster room \<noteq> sock"
  shows "Map_get (rooms (fst (step sock Disconnect s))) sid =
           Some (room\<lparr>viewers := remove1 sock (viewers room)\<rparr>) \<and>
         (if sock \<in> set (viewers room)
          then length (remove1 sock (viewers room)) + 1 = length (viewers room)
          else room\<lparr>viewers := remove1 sock (viewers room)\<rparr> = room)"
proof -
  have k: "sid \<in> set (Map_keys (rooms s))"
    using assms(2) by (rule Map_get_Some_key)
  have "Map_get (rooms (fst (step sock Disconnect s))) sid = cleaned sock room"
    using forEach_room_get [OF assms(1), of sock "s\<lparr>io := close sock (io s)\<rparr>" sid] k assms(2)
    by (simp add: handleDisconnect_def)
  with assms(3) show ?thesis
    by (auto simp: cleaned_def length_remove1 remove1_idem)
       (metis One_nat_def Suc_pred length_pos_if_in_set)
qed

text \<open>
  C2 on the code. In the same scenario user \<open>B\<close> is the one viewer of \<open>s1\<close>, joined on
  the connection \<open>sockB\<close>. The join pushed the \<^verbatim>\<open>userId\<close> \<open>B\<close> on the viewer list,
  the disconnect of \<open>sockB\<close> searches the list for the socket identifier: nothing is
  removed, nothing is emitted, and the snapshot still reports one viewer.
\<close>

theorem viewer_disconnect_keeps_viewer:
  "map (viewers \<circ> snd) (rooms (fst (run scenario init))) = [[''B'']] \<and>
   ''sockB'' \<in> members (io (fst (run scenario init))) ''s1'' \<and>
   map info_viewers (getActiveStreamsInfo (fst (run scenario init))) = [1] \<and>
   snd (step ''sockB'' Disconnect (fst (run scenario init))) = [] \<and>
   map (viewers \<circ> snd) (rooms (fst (step ''sockB'' Disconnect (fst (run scenario init))))) =
     [[''B'']] \<and>
   map info_viewers
     (getActiveStreamsInfo (fst (step ''sockB'' Disconnect (fst (run scenario init))))) = [1]"
  by (simp add: scenario_def handler_defs Let_def)

text \<open>
  C1 on the code. User \<open>A\<close>, an approved creator, creates \<open>s1\<close> on the connection
  \<open>sockA\<close> and user \<open>B\<close> joins on \<open>sockB\<close>: the room is live with broadcaster \<open>A\<close>
  and \<open>sockB\<close> is in its group. When \<open>sockA\<close> disconnects, the handler compares the
  stored \<^verbatim>\<open>userId\<close> with the socket identifier, finds no room to close, emits nothing,
  and \<open>s1\<close> stays in the snapshot.
\<close>

theorem broadcaster_disconnect_keeps_room:
  "map info_id (getActiveStreamsInfo (fst (run scenario init))) = [''s1''] \<and>
   map (broadcaster \<circ> snd) (rooms (fst (run scenario init))) = [''A''] \<and>
   ''sockB'' \<in> members (io (fst (run scenario init))) ''s1'' \<and>
   snd (step ''sockA'' Disconnect (fst (run scenario init))) = [] \<and>
   map info_id (getActiveStreamsInfo (fst (step ''sockA'' Disconnect (fst (run scenario init))))) =
     [''s1'']"
  by (simp add: scenario_def handler_defs Let_def)

end
